theory Spec2Isabelle
  imports Main
begin

section \<open>Strings\<close>

text \<open>
  Python strings are modelled as \<open>string\<close>; one \<open>char\<close> stands for one code point
  below 256. \<open>str.lower\<close> maps the upper-case letters of that range (A-Z, and the
  Latin-1 capitals except the multiplication sign) to their lower-case forms and leaves every
  other code point alone.
\<close>

definition lower_chr :: "char \<Rightarrow> char" where
  "lower_chr c =
     (let n = (of_char c :: nat)
      in if (65 \<le> n \<and> n \<le> 90) \<or> (192 \<le> n \<and> n \<le> 222 \<and> n \<noteq> 215)
         then char_of (n + 32) else c)"

definition lower :: "string \<Rightarrow> string" where
  "lower s = map lower_chr s"

fun startswith :: "string \<Rightarrow> string \<Rightarrow> bool" where
  "startswith s [] = True"
| "startswith [] (p # ps) = False"
| "startswith (c # cs) (p # ps) = (c = p \<and> startswith cs ps)"

text \<open>\<open>py_in sub s\<close> is Python's \<^verbatim>\<open>sub in s\<close> on strings.\<close>

fun py_in :: "string \<Rightarrow> string \<Rightarrow> bool" where
  "py_in sub [] = (sub = [])"
| "py_in sub (c # cs) = (startswith (c # cs) sub \<or> py_in sub cs)"

section \<open>FontLoader._filter_useable_styles\<close>

text \<open>
  The local variables of the method: the list being built and the four flags. The
  parameters \<^verbatim>\<open>font_db\<close> and \<^verbatim>\<open>family\<close> are never read by the method and are left out.
\<close>

record filter_state =
  useful_styles :: "string list"
  regular_found :: bool
  bold_found :: bool
  italic_found :: bool
  bold_italic_found :: bool

definition filter_init :: filter_state where
  "filter_init = \<lparr>useful_styles = [], regular_found = False, bold_found = False,
     italic_found = False, bold_italic_found = False\<rparr>"

text \<open>One iteration of \<^verbatim>\<open>for style in styles\<close>: the if/elif chain in the source's order.\<close>

definition filter_step :: "filter_state \<Rightarrow> string \<Rightarrow> filter_state" where
  "filter_step st style =
     (let lower_style = lower style
      in if py_in ''regular'' lower_style
            \<or> (\<not> regular_found st \<and> lower_style \<in> set [''normal'', ''book''])
         then st\<lparr>useful_styles := useful_styles st @ [style], regular_found := True\<rparr>
         else if py_in ''bold'' lower_style \<and> py_in ''italic'' lower_style
         then (if \<not> bold_italic_found st
               then st\<lparr>useful_styles := useful_styles st @ [style], bold_italic_found := True\<rparr>
               else st)
         else if py_in ''bold'' lower_style
         then (if \<not> bold_found st
               then st\<lparr>useful_styles := useful_styles st @ [style], bold_found := True\<rparr>
               else st)
         else if py_in ''italic'' lower_style
         then (if \<not> italic_found st
               then st\<lparr>useful_styles := useful_styles st @ [style], italic_found := True\<rparr>
               else st)
         else if length (useful_styles st) < 4
         then st\<lparr>useful_styles := useful_styles st @ [style]\<rparr>
         else st)"

fun filter_loop :: "filter_state \<Rightarrow> string list \<Rightarrow> filter_state" where
  "filter_loop st [] = st"
| "filter_loop st (style # styles) = filter_loop (filter_step st style) styles"

definition filter_useable_styles :: "string list \<Rightarrow> string list" where
  "filter_useable_styles styles = take 4 (useful_styles (filter_loop filter_init styles))"

text \<open>
  The branch of the chain a style name takes, given the flags at that moment: the
  classification the loop applies, read off the conditions of \<open>filter_step\<close>.
\<close>

datatype bucket = Regular | BoldItalic | Bold | Italic | Overflow

definition style_bucket :: "filter_state \<Rightarrow> string \<Rightarrow> bucket" where
  "style_bucket st style =
     (let lower_style = lower style
      in if py_in ''regular'' lower_style
            \<or> (\<not> regular_found st \<and> lower_style \<in> set [''normal'', ''book''])
         then Regular
         else if py_in ''bold'' lower_style \<and> py_in ''italic'' lower_style then BoldItalic
         else if py_in ''bold'' lower_style then Bold
         else if py_in ''italic'' lower_style then Italic
         else Overflow)"

section \<open>MainWindow: the weight slider\<close>

datatype weight =
  Thin | ExtraLight | Light | Normal | Medium | DemiBold | WBold | ExtraBold | Black

datatype py_error = IndexError | Exception string

definition weights :: "weight list" where
  "weights = [Thin, ExtraLight, Light, Normal, Medium, DemiBold, WBold, ExtraBold, Black]"

text \<open>
  \<^verbatim>\<open>int(value / 11.11)\<close>: the quotient truncated towards zero. The quotient
  \<open>100 * value / 1111\<close> is an integer only at multiples of 1111, and elsewhere is at least
  \<open>1 / 1111\<close> away from one, far more than the rounding error of the floating-point division,
  so the truncation is computed here on exact integers.
\<close>

definition slider_index :: "int \<Rightarrow> int" where
  "slider_index v = (if 0 \<le> v then (v * 100) div 1111 else - ((- v * 100) div 1111))"

text \<open>
  Subscripting a Python list: positions \<open>0 .. len - 1\<close> read from the front, positions
  \<open>- len .. - 1\<close> read from the back, every other position raises.
\<close>

definition py_index :: "'a list \<Rightarrow> int \<Rightarrow> py_error + 'a" where
  "py_index xs i =
     (if 0 \<le> i \<and> i < int (length xs) then Inr (xs ! nat i)
      else if i < 0 \<and> - int (length xs) \<le> i then Inr (xs ! nat (int (length xs) + i))
      else Inl IndexError)"

definition slider_value_to_weight :: "int \<Rightarrow> py_error + weight" where
  "slider_value_to_weight v =
     (let index = slider_index v
      in py_index weights (min index (int (length weights) - 1)))"

text \<open>
  \<^verbatim>\<open>_update_font_weight\<close>: the name shown beside the slider. The dictionary of ranges is
  scanned in insertion order and the first range holding the value gives the name; the
  \<^verbatim>\<open>else\<close> of the loop gives the default.
\<close>

definition weight_names :: "((int \<times> int) \<times> string) list" where
  "weight_names =
     [((0, 12), ''Thin''), ((12, 25), ''Extra Light''), ((25, 38), ''Light''),
      ((38, 50), ''Normal''), ((50, 62), ''Medium''), ((62, 75), ''Semi Bold''),
      ((75, 88), ''Bold''), ((88, 100), ''Extra Bold'')]"

fun weight_label_scan :: "((int \<times> int) \<times> string) list \<Rightarrow> int \<Rightarrow> string" where
  "weight_label_scan [] v = ''Normal''"
| "weight_label_scan (((lo, hi), name) # rest) v =
     (if lo \<le> v \<and> v < hi then name else weight_label_scan rest v)"

definition weight_label :: "int \<Rightarrow> string" where
  "weight_label v = weight_label_scan weight_names v"

text \<open>The position of a weight in the list \<open>weights\<close>: the order of the nine buckets.\<close>

fun weight_rank :: "weight \<Rightarrow> nat" where
  "weight_rank Thin = 0"
| "weight_rank ExtraLight = 1"
| "weight_rank Light = 2"
| "weight_rank Normal = 3"
| "weight_rank Medium = 4"
| "weight_rank DemiBold = 5"
| "weight_rank WBold = 6"
| "weight_rank ExtraBold = 7"
| "weight_rank Black = 8"

section \<open>Exceptions\<close>

text \<open>
  A call that may raise returns \<open>Inl\<close> the exception; \<open>bind_e\<close> is the sequencing of two
  statements inside one \<^verbatim>\<open>try\<close> block: when the first raises, the second is not run.
\<close>

definition bind_e :: "py_error + 'a \<Rightarrow> ('a \<Rightarrow> py_error + 'b) \<Rightarrow> py_error + 'b" where
  "bind_e m f = (case m of Inl e \<Rightarrow> Inl e | Inr x \<Rightarrow> f x)"

section \<open>More string operations\<close>

definition newline :: char where
  "newline = CHR 0x0A"

text \<open>The white space of \<^verbatim>\<open>str.split()\<close> and \<^verbatim>\<open>str.strip()\<close> among the code points below 256.\<close>

definition is_space :: "char \<Rightarrow> bool" where
  "is_space c =
     (let n = (of_char c :: nat)
      in (9 \<le> n \<and> n \<le> 13) \<or> (28 \<le> n \<and> n \<le> 32) \<or> n = 133 \<or> n = 160)"

text \<open>\<^verbatim>\<open>s.split()\<close>: the maximal runs of characters that are not white space.\<close>

fun split_from :: "string \<Rightarrow> string \<Rightarrow> string list" where
  "split_from cur [] = (if cur = [] then [] else [cur])"
| "split_from cur (c # cs) =
     (if is_space c then (if cur = [] then split_from [] cs else cur # split_from [] cs)
      else split_from (cur @ [c]) cs)"

definition split_ws :: "string \<Rightarrow> string list" where
  "split_ws s = split_from [] s"

text \<open>\<^verbatim>\<open>s.split('\n')\<close>: the pieces between newlines, empty pieces included.\<close>

fun split_nl_from :: "string \<Rightarrow> string \<Rightarrow> string list" where
  "split_nl_from cur [] = [cur]"
| "split_nl_from cur (c # cs) =
     (if c = newline then cur # split_nl_from [] cs else split_nl_from (cur @ [c]) cs)"

definition split_nl :: "string \<Rightarrow> string list" where
  "split_nl s = split_nl_from [] s"

definition strip :: "string \<Rightarrow> string" where
  "strip s = rev (dropWhile is_space (rev (dropWhile is_space s)))"

text \<open>\<^verbatim>\<open>s.replace('\n', ' \n ')\<close>.\<close>

definition replace_newline :: "string \<Rightarrow> string" where
  "replace_newline s =
     concat (map (\<lambda>c. if c = newline then [CHR '' '', newline, CHR '' ''] else [c]) s)"

section \<open>FontPreviewWidget\<close>

record font =
  family :: string
  pointSize :: int
  weight_of :: weight
  styleName :: string

type_synonym color = "nat \<times> nat \<times> nat"

datatype draw_op = DrawText (op_font: font) (op_x: int) (op_y: int) (op_text: string)

text \<open>
  A pixmap is what was painted on it: its size, the pen, and the text drawn, in order.
\<close>

record pixmap =
  pm_width :: int
  pm_height :: int
  pm_pen :: color
  pm_ops :: "draw_op list"

text \<open>
  The calls out of the widget: into Qt, to measure and rasterize, and \<^verbatim>\<open>print\<close>. Each may
  raise. \<open>newPixmap\<close> stands for creating and clearing the pixmap and opening the painter
  on it. \<open>py_print\<close> is the \<^verbatim>\<open>print\<close> of the message for an exception: it raises when
  the standard output cannot take the message, for one when its encoding has no Chinese
  characters.
\<close>

record surface =
  newPixmap :: "int \<Rightarrow> int \<Rightarrow> py_error + unit"
  horizontalAdvance :: "font \<Rightarrow> string \<Rightarrow> py_error + int"
  lineSpacing :: "font \<Rightarrow> py_error + int"
  ascent :: "font \<Rightarrow> py_error + int"
  drawText :: "font \<Rightarrow> int \<Rightarrow> int \<Rightarrow> string \<Rightarrow> py_error + unit"
  py_print :: "py_error \<Rightarrow> py_error + unit"

text \<open>
  The widget's fields, its rectangle, and what it printed. \<open>update_cache_calls\<close> counts the
  runs of \<^verbatim>\<open>_update_cache\<close>; the source has no such field, it is kept for the statements
  about how often a render happens.
\<close>

record widget =
  font_family :: string
  font_style :: string
  widget_text :: string
  font_size :: int
  font_color :: color
  font_weight :: weight
  cache_pixmap :: "pixmap option"
  rect_width :: int
  rect_height :: int
  printed :: "py_error list"
  update_cache_calls :: nat

definition set_font_info :: "widget \<Rightarrow> string \<Rightarrow> string \<Rightarrow> string \<Rightarrow> widget" where
  "set_font_info w fam style txt =
     w\<lparr>font_family := fam, font_style := style, widget_text := txt, cache_pixmap := None\<rparr>"

definition set_font_properties :: "widget \<Rightarrow> int \<Rightarrow> color \<Rightarrow> weight \<Rightarrow> widget" where
  "set_font_properties w new_size col wt =
     w\<lparr>font_size := new_size, font_color := col, font_weight := wt, cache_pixmap := None\<rparr>"

text \<open>
  The class overrides no resize handler: when Qt resizes the widget only the rectangle
  changes.
\<close>

definition resize :: "widget \<Rightarrow> int \<Rightarrow> int \<Rightarrow> widget" where
  "resize w width height = w\<lparr>rect_width := width, rect_height := height\<rparr>"

definition main_font :: "widget \<Rightarrow> font" where
  "main_font w = \<lparr>family = font_family w, pointSize = font_size w,
     weight_of = font_weight w, styleName = font_style w\<rparr>"

definition small_font :: "widget \<Rightarrow> font" where
  "small_font w = \<lparr>family = font_family w, pointSize = max (font_size w - 4) 8,
     weight_of = font_weight w, styleName = []\<rparr>"

definition font_name :: "widget \<Rightarrow> string" where
  "font_name w = font_family w @ '' - '' @ font_style w"

subsection \<open>Breaking the text into lines\<close>

text \<open>One iteration of \<^verbatim>\<open>for word in words\<close>, on the pair of \<open>lines\<close> and \<open>current_line\<close>.\<close>

definition wrap_step ::
  "(string \<Rightarrow> py_error + int) \<Rightarrow> int \<Rightarrow> string list \<times> string \<Rightarrow> string
     \<Rightarrow> py_error + (string list \<times> string)" where
  "wrap_step adv width st word =
     (let lines = fst st; current_line = snd st
      in if word = [newline]
         then Inr ((if strip current_line \<noteq> [] then lines @ [strip current_line] else lines)
                     @ [[]], [])
         else
           let test_line = current_line @ (if current_line \<noteq> [] then '' '' else []) @ word
           in bind_e (adv test_line) (\<lambda>a.
                if a > width
                then
                  let lines1 = (if current_line \<noteq> [] then lines @ [current_line] else lines)
                  in bind_e (adv word) (\<lambda>aw.
                       if aw > width then Inr (lines1 @ [word], [])
                       else Inr (lines1, word))
                else Inr (lines, test_line)))"

fun wrap_loop ::
  "(string \<Rightarrow> py_error + int) \<Rightarrow> int \<Rightarrow> string list \<times> string \<Rightarrow> string list
     \<Rightarrow> py_error + (string list \<times> string)" where
  "wrap_loop adv width st [] = Inr st"
| "wrap_loop adv width st (word # words) =
     bind_e (wrap_step adv width st word) (\<lambda>st'. wrap_loop adv width st' words)"

definition wrap_lines ::
  "(string \<Rightarrow> py_error + int) \<Rightarrow> int \<Rightarrow> string \<Rightarrow> py_error + string list" where
  "wrap_lines adv width txt =
     bind_e (adv txt) (\<lambda>a.
       if a > width
       then bind_e (wrap_loop adv width ([], []) (split_ws (replace_newline txt))) (\<lambda>st.
              Inr (if strip (snd st) \<noteq> [] then fst st @ [strip (snd st)] else fst st))
       else Inr (split_nl txt))"

subsection \<open>Line heights\<close>

fun line_heights_of :: "(py_error + int) \<Rightarrow> string list \<Rightarrow> py_error + int list" where
  "line_heights_of spacing [] = Inr []"
| "line_heights_of spacing (line # lines) =
     bind_e spacing (\<lambda>line_height.
       bind_e (line_heights_of spacing lines) (\<lambda>rest. Inr (line_height # rest)))"

subsection \<open>The font name beside a line\<close>

definition available_width_of :: "int \<Rightarrow> int \<Rightarrow> int" where
  "available_width_of name_x preview_text_end = max 0 (name_x - preview_text_end - 20)"

function shorten_name ::
  "(string \<Rightarrow> py_error + int) \<Rightarrow> int \<Rightarrow> string \<Rightarrow> py_error + string" where
  "shorten_name adv available_width shortened_name =
     (case adv (shortened_name @ ''...'') of
        Inl e \<Rightarrow> Inl e
      | Inr a \<Rightarrow>
          if a > available_width \<and> length shortened_name > 3
          then shorten_name adv available_width (butlast shortened_name)
          else Inr shortened_name)"
  by pat_completeness auto
termination
  by (relation "measure (\<lambda>(adv, available_width, shortened_name). length shortened_name)") auto

text \<open>\<^verbatim>\<open>painter.drawText\<close> with the painter's font \<open>f\<close>: the text drawn, or the exception.\<close>

definition draw ::
  "surface \<Rightarrow> font \<Rightarrow> int \<Rightarrow> int \<Rightarrow> string \<Rightarrow> py_error + draw_op list" where
  "draw sf f x y s = bind_e (drawText sf f x y s) (\<lambda>u. Inr [DrawText f x y s])"

text \<open>Drawing a string at \<open>x\<close> in the smaller font, on the baseline the source computes.\<close>

definition draw_name_at ::
  "surface \<Rightarrow> widget \<Rightarrow> int \<Rightarrow> int \<Rightarrow> string \<Rightarrow> py_error + draw_op list" where
  "draw_name_at sf w x y s =
     bind_e (ascent sf (main_font w)) (\<lambda>a.
       bind_e (ascent sf (small_font w)) (\<lambda>sa.
         draw sf (small_font w) x (y - (a - sa)) s))"

definition draw_font_name ::
  "surface \<Rightarrow> widget \<Rightarrow> int \<Rightarrow> string \<Rightarrow> py_error + draw_op list" where
  "draw_font_name sf w y line =
     bind_e (horizontalAdvance sf (small_font w) (font_name w)) (\<lambda>name_width.
       let name_x = rect_width w - name_width - 10
       in bind_e (horizontalAdvance sf (main_font w) line) (\<lambda>line_advance.
            let preview_text_end = 10 + line_advance
            in if name_x > preview_text_end + 20
               then draw_name_at sf w name_x y (font_name w)
               else
                 let available_width = available_width_of name_x preview_text_end
                 in if available_width > 30
                    then bind_e (shorten_name (horizontalAdvance sf (small_font w))
                                   available_width (font_name w)) (\<lambda>shortened_name.
                           if length shortened_name < length (font_name w)
                           then draw_name_at sf w (preview_text_end + 20) y
                                  (shortened_name @ ''...'')
                           else draw_name_at sf w (preview_text_end + 20) y (font_name w))
                    else Inr []))"

subsection \<open>Drawing the lines\<close>

text \<open>
  The loop over the lines with their heights, from the baseline \<open>y\<close>: a line that would
  end below the rectangle stops the loop; otherwise the line is drawn, then the font name
  beside it, and the baseline moves down.
\<close>

fun draw_lines ::
  "surface \<Rightarrow> widget \<Rightarrow> int \<Rightarrow> (string \<times> int) list \<Rightarrow> py_error + draw_op list" where
  "draw_lines sf w y [] = Inr []"
| "draw_lines sf w y ((line, line_height) # rest) =
     bind_e (ascent sf (main_font w)) (\<lambda>a.
       if y - a + line_height > rect_height w then Inr []
       else bind_e (draw sf (main_font w) 10 y line) (\<lambda>line_op.
              bind_e (draw_font_name sf w y line) (\<lambda>name_ops.
                bind_e (draw_lines sf w (y + line_height) rest) (\<lambda>rest_ops.
                  Inr (line_op @ name_ops @ rest_ops)))))"

subsection \<open>\<^verbatim>\<open>_update_cache\<close> and \<^verbatim>\<open>paintEvent\<close>\<close>

text \<open>The body of the \<^verbatim>\<open>try\<close> block.\<close>

definition render :: "surface \<Rightarrow> widget \<Rightarrow> py_error + pixmap" where
  "render sf w =
     bind_e (newPixmap sf (rect_width w) (rect_height w)) (\<lambda>u.
       let width = rect_width w - 20
       in bind_e (wrap_lines (horizontalAdvance sf (main_font w)) width (widget_text w)) (\<lambda>lines.
            bind_e (line_heights_of (lineSpacing sf (main_font w)) lines) (\<lambda>line_heights.
              let total_height = sum_list line_heights
              in bind_e (ascent sf (main_font w)) (\<lambda>a.
                   let y = (if total_height > rect_height w - 20 then a else 10 + a)
                   in bind_e (draw_lines sf w y (zip lines line_heights)) (\<lambda>ops.
                        Inr \<lparr>pm_width = rect_width w, pm_height = rect_height w,
                          pm_pen = font_color w, pm_ops = ops\<rparr>)))))"

text \<open>
  \<^verbatim>\<open>_update_cache\<close> returns the widget as the method leaves it, and the exception that
  leaves the method, if any. The handler prints first: when the print raises, that
  exception leaves the method and the assignment to the cache after it is not run.
\<close>

definition update_cache :: "surface \<Rightarrow> widget \<Rightarrow> widget \<times> py_error option" where
  "update_cache sf w =
     (let w0 = w\<lparr>update_cache_calls := update_cache_calls w + 1\<rparr>
      in case render sf w of
           Inr pm \<Rightarrow> (w0\<lparr>cache_pixmap := Some pm\<rparr>, None)
         | Inl e \<Rightarrow>
             (case py_print sf e of
                Inl e' \<Rightarrow> (w0, Some e')
              | Inr u \<Rightarrow> (w0\<lparr>printed := printed w @ [e], cache_pixmap := None\<rparr>, None)))"

text \<open>
  \<^verbatim>\<open>paintEvent\<close> returns the widget and either the exception that leaves the method or
  the pixmap it drew on the screen, if any. The repaint that \<^verbatim>\<open>self.update()\<close> asks for
  in the two setters is such a paint event, run later by Qt.
\<close>

definition paintEvent :: "surface \<Rightarrow> widget \<Rightarrow> widget \<times> (py_error + pixmap option)" where
  "paintEvent sf w =
     (if cache_pixmap w = None
      then (case update_cache sf w of
              (w1, Some e) \<Rightarrow> (w1, Inl e)
            | (w1, None) \<Rightarrow> (w1, Inr (cache_pixmap w1)))
      else (w, Inr (cache_pixmap w)))"

text \<open>
  A surface on which nothing raises, for examples: every character of the main font is
  \<open>7\<close> wide and every character of the smaller font \<open>6\<close>.
\<close>

definition fixed_surface :: surface where
  "fixed_surface = \<lparr>newPixmap = (\<lambda>width height. Inr ()),
     horizontalAdvance = (\<lambda>f s. Inr ((if pointSize f < 24 then 6 else 7) * int (length s))),
     lineSpacing = (\<lambda>f. Inr 20),
     ascent = (\<lambda>f. Inr (if pointSize f < 24 then 12 else 15)),
     drawText = (\<lambda>f x y s. Inr ()),
     py_print = (\<lambda>e. Inr ())\<rparr>"

definition example_widget :: widget where
  "example_widget = \<lparr>font_family = ''Arial'', font_style = ''Bold'',
     widget_text = ''ab'', font_size = 24, font_color = (0, 0, 0), font_weight = Normal,
     cache_pixmap = None, rect_width = 300, rect_height = 60, printed = [],
     update_cache_calls = 0\<rparr>"

definition example_pixmap :: pixmap where
  "example_pixmap = \<lparr>pm_width = 300, pm_height = 60, pm_pen = (0, 0, 0),
     pm_ops = [DrawText (main_font example_widget) 10 25 ''ab'',
               DrawText (small_font example_widget) 218 22 ''Arial - Bold'']\<rparr>"

definition two_line_widget :: widget where
  "two_line_widget = example_widget\<lparr>widget_text := ''ab'' @ [newline] @ ''cd''\<rparr>"

text \<open>A surface on which drawing anywhere but at the left margin raises.\<close>

definition failing_surface :: surface where
  "failing_surface = fixed_surface\<lparr>drawText :=
     (\<lambda>f x y s. if x = 10 then Inr () else Inl (Exception ''drawText failed''))\<rparr>"

text \<open>The same surface with a standard output that cannot encode the message.\<close>

definition unencodable_stdout_surface :: surface where
  "unencodable_stdout_surface = failing_surface\<lparr>py_print :=
     (\<lambda>e. Inl (Exception ''UnicodeEncodeError''))\<rparr>"


section \<open>Predicates used in the statements\<close>

text \<open>A token of \<^verbatim>\<open>split()\<close>: not empty, no white space in it.\<close>

definition is_word :: "string \<Rightarrow> bool" where
  "is_word s = (s \<noteq> [] \<and> (\<forall>c \<in> set s. \<not> is_space c))"

text \<open>A string that \<^verbatim>\<open>strip()\<close> leaves as it is.\<close>

definition stripped :: "string \<Rightarrow> bool" where
  "stripped s = (s = [] \<or> (\<not> is_space (hd s) \<and> \<not> is_space (last s)))"

text \<open>The string was measured and is no wider than the available width.\<close>

definition fits :: "(string \<Rightarrow> py_error + int) \<Rightarrow> int \<Rightarrow> string \<Rightarrow> bool" where
  "fits adv width s = (\<exists>a. adv s = Inr a \<and> a \<le> width)"

text \<open>The string is one of the tokens, and alone it is wider than the available width.\<close>

definition overlong_token ::
  "(string \<Rightarrow> py_error + int) \<Rightarrow> int \<Rightarrow> string list \<Rightarrow> string \<Rightarrow> bool" where
  "overlong_token adv width tokens s =
     (s \<in> set tokens \<and> (\<exists>a. adv s = Inr a \<and> a > width))"

definition line_ok ::
  "(string \<Rightarrow> py_error + int) \<Rightarrow> int \<Rightarrow> string list \<Rightarrow> string \<Rightarrow> bool" where
  "line_ok adv width tokens s = (fits adv width s \<or> overlong_token adv width tokens s)"

text \<open>The invariant of the word loop on \<open>lines\<close> and \<open>current_line\<close>.\<close>

definition wrap_inv ::
  "(string \<Rightarrow> py_error + int) \<Rightarrow> int \<Rightarrow> string list \<Rightarrow> string list \<times> string \<Rightarrow> bool" where
  "wrap_inv adv width tokens st =
     ((\<forall>l \<in> set (fst st). line_ok adv width tokens l)
      \<and> (snd st = [] \<or> fits adv width (snd st))
      \<and> stripped (snd st))"

text \<open>The tokens held by the loop's state, in order.\<close>

definition tokens_of :: "string list \<times> string \<Rightarrow> string list" where
  "tokens_of st = concat (map split_ws (fst st)) @ split_ws (snd st)"

section \<open>Properties of the style filter\<close>

lemma filter_step_regular:
  "style_bucket st style = Regular \<Longrightarrow>
     useful_styles (filter_step st style) = useful_styles st @ [style]
     \<and> regular_found (filter_step st style)"
  by (auto simp: style_bucket_def filter_step_def Let_def split: if_splits)

lemma filter_step_bold_italic:
  "style_bucket st style = BoldItalic \<Longrightarrow>
     bold_italic_found (filter_step st style)
     \<and> useful_styles (filter_step st style) =
         (if bold_italic_found st then useful_styles st else useful_styles st @ [style])"
  by (auto simp: style_bucket_def filter_step_def Let_def split: if_splits)

lemma filter_step_bold:
  "style_bucket st style = Bold \<Longrightarrow>
     bold_found (filter_step st style)
     \<and> useful_styles (filter_step st style) =
         (if bold_found st then useful_styles st else useful_styles st @ [style])"
  by (auto simp: style_bucket_def filter_step_def Let_def split: if_splits)

lemma filter_step_italic:
  "style_bucket st style = Italic \<Longrightarrow>
     italic_found (filter_step st style)
     \<and> useful_styles (filter_step st style) =
         (if italic_found st then useful_styles st else useful_styles st @ [style])"
  by (auto simp: style_bucket_def filter_step_def Let_def split: if_splits)

lemma filter_step_flags_kept:
  "(regular_found st \<longrightarrow> regular_found (filter_step st style))
   \<and> (bold_italic_found st \<longrightarrow> bold_italic_found (filter_step st style))
   \<and> (bold_found st \<longrightarrow> bold_found (filter_step st style))
   \<and> (italic_found st \<longrightarrow> italic_found (filter_step st style))"
  by (simp add: filter_step_def Let_def)

lemma filter_loop_flags_kept:
  "(regular_found st \<longrightarrow> regular_found (filter_loop st styles))
   \<and> (bold_italic_found st \<longrightarrow> bold_italic_found (filter_loop st styles))
   \<and> (bold_found st \<longrightarrow> bold_found (filter_loop st styles))
   \<and> (italic_found st \<longrightarrow> italic_found (filter_loop st styles))"
proof (induction styles arbitrary: st)
  case Nil
  show ?case by simp
next
  case (Cons style styles)
  from Cons.IH [of "filter_step st style"] filter_step_flags_kept [of st style]
  show ?case by simp
qed

text \<open>
  C2. On the styles Regular, Bold, Italic, Bold Italic, Black the filter keeps the first
  four names in the order in which the family lists them; Black finds the list full and is
  dropped.
\<close>

theorem filter_useable_styles_example:
  "filter_useable_styles [''Regular'', ''Bold'', ''Italic'', ''Bold Italic'', ''Black'']
     = [''Regular'', ''Bold'', ''Italic'', ''Bold Italic'']"
  by code_simp

theorem filter_useable_styles_priority_order_counterexample:
  "filter_useable_styles [''Regular'', ''Bold'', ''Italic'', ''Bold Italic'', ''Black'']
     \<noteq> [''Regular'', ''Bold Italic'', ''Bold'', ''Italic'']"
  by code_simp

text \<open>
  C3. The Regular branch appends every name that contains "regular", whether or not a
  regular style was found before: two such names of one family are both returned, and both
  were classified into the Regular bucket.
\<close>

theorem filter_useable_styles_two_regular:
  "filter_useable_styles [''Regular'', ''Condensed Regular'']
     = [''Regular'', ''Condensed Regular'']
   \<and> style_bucket filter_init ''Regular'' = Regular
   \<and> regular_found (filter_step filter_init ''Regular'')
   \<and> style_bucket (filter_step filter_init ''Regular'') ''Condensed Regular'' = Regular"
  by code_simp

text \<open>
  C7. The filter returns at most four names for every list of style names: the result is
  the first four entries of the list built by the loop, and a name that falls through to
  the last branch of the chain is appended only while that list has fewer than four entries.
\<close>

theorem filter_useable_styles_at_most_4:
  "length (filter_useable_styles styles) \<le> 4
   \<and> filter_useable_styles styles = take 4 (useful_styles (filter_loop filter_init styles))
   \<and> (style_bucket st style = Overflow \<longrightarrow>
        useful_styles (filter_step st style) =
          (if length (useful_styles st) < 4 then useful_styles st @ [style]
           else useful_styles st))"
  by (auto simp: filter_useable_styles_def style_bucket_def filter_step_def Let_def
      split: if_splits)

theorem filter_useable_styles_at_most_4_witness:
  "style_bucket filter_init ''Black'' = Overflow
   \<and> useful_styles (filter_step filter_init ''Black'') = [''Black'']
   \<and> length (filter_useable_styles
        [''Regular'', ''Bold'', ''Italic'', ''Bold Italic'', ''Black'', ''Light'']) \<le> 4"
proof -
  have h: "style_bucket filter_init ''Black'' = Overflow"
    by code_simp
  have u: "useful_styles filter_init = []"
    by (simp add: filter_init_def)
  from filter_useable_styles_at_most_4
         [of "[''Regular'', ''Bold'', ''Italic'', ''Bold Italic'', ''Black'', ''Light'']"
             filter_init "''Black''"] h u
  show ?thesis by simp
qed

section \<open>Properties of the weight slider\<close>

lemma slider_value_to_weight_0: "slider_value_to_weight 0 = Inr Thin"
  by (simp add: slider_value_to_weight_def slider_index_def py_index_def weights_def)

lemma slider_value_to_weight_99: "slider_value_to_weight 99 = Inr Black"
  by (simp add: slider_value_to_weight_def slider_index_def py_index_def weights_def)

lemma slider_in_range:
  assumes "0 \<le> v"
  shows "slider_value_to_weight v = Inr (weights ! nat (min (slider_index v) 8))"
proof -
  have "0 \<le> slider_index v"
    using assms by (simp add: slider_index_def)
  then show ?thesis
    by (simp add: slider_value_to_weight_def py_index_def weights_def min_def)
qed

lemma slider_index_mono:
  "0 \<le> v1 \<Longrightarrow> v1 \<le> v2 \<Longrightarrow> slider_index v1 \<le> slider_index v2"
  by (simp add: slider_index_def zdiv_mono1)

lemma weight_rank_nth: "i < 9 \<Longrightarrow> weight_rank (weights ! i) = i"
proof -
  assume "i < 9"
  then have "i \<in> {0, 1, 2, 3, 4, 5, 6, 7, 8}"
    by auto
  then show ?thesis
    by (auto simp: weights_def)
qed

lemma slider_rank:
  assumes "0 \<le> v" and "slider_value_to_weight v = Inr w"
  shows "int (weight_rank w) = min (slider_index v) 8"
proof -
  have nn: "0 \<le> slider_index v"
    using assms(1) by (simp add: slider_index_def)
  have w: "w = weights ! nat (min (slider_index v) 8)"
    using assms(2) slider_in_range [OF assms(1)] by simp
  have "nat (min (slider_index v) 8) < 9"
    using nn by auto
  from weight_rank_nth [OF this] w nn show ?thesis
    by simp
qed

text \<open>Over the slider's range the bucket never decreases as the value grows.\<close>

lemma slider_value_to_weight_mono:
  assumes "0 \<le> v1" and "v1 \<le> v2"
    and "slider_value_to_weight v1 = Inr w1" and "slider_value_to_weight v2 = Inr w2"
  shows "weight_rank w1 \<le> weight_rank w2"
proof -
  have "0 \<le> v2"
    using assms(1,2) by simp
  from slider_rank [OF assms(1) assms(3)] slider_rank [OF this assms(4)]
    slider_index_mono [OF assms(1,2)]
  show ?thesis by simp
qed

text \<open>
  C1. At the slider's middle position 50, which the window sets at start-up and labels
  Normal, the conversion yields the fifth weight of the list, Medium, and not Normal.
\<close>

theorem slider_value_to_weight_50:
  "slider_value_to_weight 50 = Inr Medium
   \<and> slider_value_to_weight 50 \<noteq> Inr Normal
   \<and> weight_label 50 = ''Medium''"
  by (simp add: slider_value_to_weight_def slider_index_def py_index_def weights_def
      weight_label_def weight_names_def)

section \<open>Sequencing\<close>

lemma bind_e_Inr [simp]: "bind_e (Inr x) f = f x"
  by (simp add: bind_e_def)

lemma bind_e_Inl [simp]: "bind_e (Inl e) f = Inl e"
  by (simp add: bind_e_def)

lemma bind_e_eq_Inr: "bind_e m f = Inr y \<longleftrightarrow> (\<exists>x. m = Inr x \<and> f x = Inr y)"
  by (cases m) simp_all

section \<open>Properties of the string operations\<close>

lemma split_from_words:
  "\<forall>c \<in> set cur. \<not> is_space c \<Longrightarrow> w \<in> set (split_from cur s) \<Longrightarrow> is_word w"
proof (induction s arbitrary: cur)
  case Nil
  then show ?case by (auto simp: is_word_def split: if_splits)
next
  case (Cons c cs)
  show ?case
  proof (cases "is_space c")
    case True
    with Cons.prems have "w = cur \<and> cur \<noteq> [] \<or> w \<in> set (split_from [] cs)"
      by (auto split: if_splits)
    then show ?thesis
    proof
      assume "w = cur \<and> cur \<noteq> []"
      with Cons.prems(1) show ?thesis by (simp add: is_word_def)
    next
      assume "w \<in> set (split_from [] cs)"
      with Cons.IH [of "[]"] show ?thesis by simp
    qed
  next
    case False
    with Cons.prems have "w \<in> set (split_from (cur @ [c]) cs)" by simp
    moreover have "\<forall>x \<in> set (cur @ [c]). \<not> is_space x"
      using False Cons.prems(1) by simp
    ultimately show ?thesis using Cons.IH by blast
  qed
qed

lemma split_ws_words: "w \<in> set (split_ws s) \<Longrightarrow> is_word w"
  using split_from_words [of "[]" w s] by (simp add: split_ws_def)

lemma split_from_word:
  "\<forall>c \<in> set w. \<not> is_space c \<Longrightarrow> cur @ w \<noteq> [] \<Longrightarrow> split_from cur w = [cur @ w]"
  by (induction w arbitrary: cur) auto

lemma split_ws_word: "is_word w \<Longrightarrow> split_ws w = [w]"
  using split_from_word [of w "[]"] by (simp add: split_ws_def is_word_def)

lemma split_from_space:
  "is_space c \<Longrightarrow> split_from cur (a @ c # b) = split_from cur a @ split_from [] b"
  by (induction a arbitrary: cur) auto

lemma split_ws_join:
  "is_word w \<Longrightarrow> split_ws (cur @ CHR '' '' # w) = split_ws cur @ [w]"
proof -
  assume w: "is_word w"
  have sp: "is_space CHR '' ''"
    by (simp add: is_space_def)
  have "split_ws (cur @ CHR '' '' # w) = split_ws cur @ split_ws w"
    unfolding split_ws_def by (rule split_from_space [OF sp])
  with split_ws_word [OF w] show ?thesis by simp
qed

lemma strip_stripped: "stripped s \<Longrightarrow> strip s = s"
proof (cases "s = []")
  case True
  then show ?thesis by (simp add: strip_def)
next
  case False
  assume "stripped s"
  with False have h: "\<not> is_space (hd s)" and l: "\<not> is_space (last s)"
    by (simp_all add: stripped_def)
  from False h have d: "dropWhile is_space s = s"
    by (cases s) simp_all
  from False l have "dropWhile is_space (rev s) = rev s"
    by (cases "rev s") (simp_all add: last_rev [symmetric] hd_rev)
  with d show ?thesis by (simp add: strip_def)
qed

lemma is_word_stripped: "is_word w \<Longrightarrow> stripped w"
  by (auto simp: is_word_def stripped_def)

lemma is_word_not_newline: "is_word w \<Longrightarrow> w \<noteq> [newline]"
  by (auto simp: is_word_def is_space_def newline_def)

lemma stripped_join:
  "stripped cur \<Longrightarrow> is_word w
   \<Longrightarrow> stripped (cur @ (if cur \<noteq> [] then '' '' else []) @ w)"
  by (auto simp: is_word_def stripped_def)

section \<open>Properties of the line breaking\<close>

lemma wrap_step_inv:
  assumes inv: "wrap_inv adv width tokens st"
    and w: "is_word word" and mem: "word \<in> set tokens"
    and step: "wrap_step adv width st word = Inr st'"
  shows "wrap_inv adv width tokens st'"
proof -
  obtain lines cur where st: "st = (lines, cur)"
    by (cases st)
  let ?test = "cur @ (if cur \<noteq> [] then '' '' else []) @ word"
  let ?lines1 = "if cur \<noteq> [] then lines @ [cur] else lines"
  from inv st have ok: "\<forall>l \<in> set lines. line_ok adv width tokens l"
    and cur: "cur = [] \<or> fits adv width cur" and sc: "stripped cur"
    by (simp_all add: wrap_inv_def)
  from ok cur have ok1: "\<forall>l \<in> set ?lines1. line_ok adv width tokens l"
    by (auto simp: line_ok_def)
  from step st is_word_not_newline [OF w]
  obtain a where a: "adv ?test = Inr a"
    and rest: "(if a > width
                then bind_e (adv word) (\<lambda>aw. if aw > width then Inr (?lines1 @ [word], [])
                                              else Inr (?lines1, word))
                else Inr (lines, ?test)) = Inr st'"
    by (auto simp: wrap_step_def Let_def bind_e_eq_Inr cong: if_cong)
  show ?thesis
  proof (cases "a > width")
    case False
    with rest have st': "st' = (lines, ?test)"
      by simp
    from False a have "fits adv width ?test"
      by (simp add: fits_def)
    with ok stripped_join [OF sc w] st' show ?thesis
      by (simp add: wrap_inv_def)
  next
    case True
    with rest have b: "bind_e (adv word) (\<lambda>aw. if aw > width then Inr (?lines1 @ [word], [])
                                              else Inr (?lines1, word)) = Inr st'"
      by simp
    show ?thesis
    proof (cases "adv word")
      case (Inl e)
      with b show ?thesis
        by simp
    next
      case (Inr aw)
      show ?thesis
      proof (cases "aw > width")
        case True
        with b Inr have st': "st' = (?lines1 @ [word], [])"
          by simp
        from True Inr mem have "line_ok adv width tokens word"
          by (simp add: line_ok_def overlong_token_def)
        with ok1 st' show ?thesis
          by (simp add: wrap_inv_def stripped_def)
      next
        case False
        with b Inr have st': "st' = (?lines1, word)"
          by simp
        from False Inr have "fits adv width word"
          by (simp add: fits_def)
        with ok1 st' is_word_stripped [OF w] show ?thesis
          by (simp add: wrap_inv_def)
      qed
    qed
  qed
qed

lemma wrap_loop_inv:
  "wrap_inv adv width tokens st \<Longrightarrow> \<forall>w \<in> set words. is_word w \<and> w \<in> set tokens
   \<Longrightarrow> wrap_loop adv width st words = Inr st' \<Longrightarrow> wrap_inv adv width tokens st'"
proof (induction words arbitrary: st)
  case Nil
  then show ?case by simp
next
  case (Cons word words)
  from Cons.prems(3) obtain st1 where s1: "wrap_step adv width st word = Inr st1"
    and l1: "wrap_loop adv width st1 words = Inr st'"
    by (auto simp: bind_e_eq_Inr)
  from Cons.prems(2) have w: "is_word word" and mem: "word \<in> set tokens"
    by simp_all
  from wrap_step_inv [OF Cons.prems(1) w mem s1] have "wrap_inv adv width tokens st1" .
  moreover from Cons.prems(2) have "\<forall>w \<in> set words. is_word w \<and> w \<in> set tokens"
    by simp
  ultimately show ?case using l1 by (rule Cons.IH)
qed

lemma split_ws_Nil: "split_ws [] = []"
  by (simp add: split_ws_def)

lemma wrap_step_tokens:
  assumes w: "is_word word" and step: "wrap_step adv width st word = Inr st'"
  shows "tokens_of st' = tokens_of st @ [word]"
proof -
  obtain lines cur where st: "st = (lines, cur)"
    by (cases st)
  have t: "split_ws (cur @ CHR '' '' # word) = split_ws cur @ [word]"
    by (rule split_ws_join [OF w])
  from step st is_word_not_newline [OF w] show ?thesis
    by (auto simp: wrap_step_def Let_def bind_e_eq_Inr tokens_of_def t split_ws_word [OF w]
        split_ws_Nil split: if_splits)
qed

lemma wrap_loop_tokens:
  "\<forall>w \<in> set words. is_word w \<Longrightarrow> wrap_loop adv width st words = Inr st'
   \<Longrightarrow> tokens_of st' = tokens_of st @ words"
proof (induction words arbitrary: st)
  case Nil
  then show ?case by simp
next
  case (Cons word words)
  from Cons.prems(2) obtain st1 where s1: "wrap_step adv width st word = Inr st1"
    and l1: "wrap_loop adv width st1 words = Inr st'"
    by (auto simp: bind_e_eq_Inr)
  from Cons.prems(1) have w: "is_word word" and ws: "\<forall>w \<in> set words. is_word w"
    by simp_all
  from Cons.IH [OF ws l1] wrap_step_tokens [OF w s1] show ?case
    by simp
qed

lemma wrap_step_returns:
  "\<forall>s. \<exists>a. adv s = Inr a \<Longrightarrow> \<exists>st'. wrap_step adv width st word = Inr st'"
proof -
  assume tot: "\<forall>s. \<exists>a. adv s = Inr a"
  let ?test = "snd st @ (if snd st \<noteq> [] then '' '' else []) @ word"
  from tot obtain a aw where "adv ?test = Inr a" "adv word = Inr aw"
    by blast
  then show ?thesis
    by (simp add: wrap_step_def Let_def)
qed

lemma wrap_loop_returns:
  "\<forall>s. \<exists>a. adv s = Inr a \<Longrightarrow> \<exists>st'. wrap_loop adv width st words = Inr st'"
proof (induction words arbitrary: st)
  case Nil
  show ?case by simp
next
  case (Cons word words)
  from wrap_step_returns [OF Cons.prems] obtain st1
    where "wrap_step adv width st word = Inr st1"
    by blast
  with Cons.IH [OF Cons.prems, of st1] show ?case
    by simp
qed

lemma wrap_lines_returns:
  assumes "\<forall>s. \<exists>a. adv s = Inr a"
  shows "\<exists>lines. wrap_lines adv width txt = Inr lines"
proof -
  from assms obtain a where a: "adv txt = Inr a"
    by blast
  from wrap_loop_returns [OF assms] obtain st
    where "wrap_loop adv width ([], []) (split_ws (replace_newline txt)) = Inr st"
    by blast
  with a show ?thesis
    by (simp add: wrap_lines_def)
qed

text \<open>
  C8. When the whole text is wider than the available width and the line breaking returns,
  every line it returns was measured and is no wider than the available width, except a
  line that is a single token of the text and alone is wider than the available width.
  Splitting the returned lines into tokens gives back the tokens of the text, in order:
  no token is dropped and none is split.
\<close>

theorem wrap_lines_fit:
  assumes "adv txt = Inr a" and "a > width" and "wrap_lines adv width txt = Inr lines"
  shows "(\<forall>l \<in> set lines.
            fits adv width l \<or> overlong_token adv width (split_ws (replace_newline txt)) l)
    \<and> concat (map split_ws lines) = split_ws (replace_newline txt)"
proof -
  let ?tokens = "split_ws (replace_newline txt)"
  from assms obtain st where loop: "wrap_loop adv width ([], []) ?tokens = Inr st"
    and lines: "lines = (if strip (snd st) \<noteq> [] then fst st @ [strip (snd st)] else fst st)"
    by (auto simp: wrap_lines_def bind_e_eq_Inr)
  have words: "\<forall>w \<in> set ?tokens. is_word w \<and> w \<in> set ?tokens"
    by (simp add: split_ws_words)
  have "wrap_inv adv width ?tokens ([], [])"
    by (simp add: wrap_inv_def stripped_def)
  from wrap_loop_inv [OF this words loop] have inv: "wrap_inv adv width ?tokens st" .
  then have s: "strip (snd st) = snd st"
    by (simp add: wrap_inv_def strip_stripped)
  from inv s lines have one: "\<forall>l \<in> set lines. line_ok adv width ?tokens l"
    by (auto simp: wrap_inv_def line_ok_def)
  from words have "\<forall>w \<in> set ?tokens. is_word w"
    by simp
  from wrap_loop_tokens [OF this loop] have "tokens_of st = ?tokens"
    by (simp add: tokens_of_def split_ws_Nil)
  with s lines have two: "concat (map split_ws lines) = ?tokens"
    by (auto simp: tokens_of_def split_ws_Nil)
  from one two show ?thesis
    by (simp add: line_ok_def)
qed

theorem wrap_lines_fit_witness:
  "wrap_lines (horizontalAdvance fixed_surface (main_font example_widget)) 50
       ''a very long sentence that exceeds the box''
     = Inr [''a very'', ''long'', ''sentence'', ''that'', ''exceeds'', ''the box'']
   \<and> fits (horizontalAdvance fixed_surface (main_font example_widget)) 50 ''a very''
   \<and> overlong_token (horizontalAdvance fixed_surface (main_font example_widget)) 50
        (split_ws (replace_newline ''a very long sentence that exceeds the box'')) ''sentence''
   \<and> concat (map split_ws [''a very'', ''long'', ''sentence'', ''that'', ''exceeds'', ''the box''])
        = split_ws (replace_newline ''a very long sentence that exceeds the box'')"
proof -
  let ?adv = "horizontalAdvance fixed_surface (main_font example_widget)"
  let ?txt = "''a very long sentence that exceeds the box''"
  have h1: "?adv ?txt = Inr 287"
    by code_simp
  have h2: "(287::int) > 50"
    by simp
  have h3: "wrap_lines ?adv 50 ?txt
      = Inr [''a very'', ''long'', ''sentence'', ''that'', ''exceeds'', ''the box'']"
    by code_simp
  have n1: "\<not> fits ?adv 50 ''sentence''"
    by (simp add: fits_def fixed_surface_def main_font_def example_widget_def)
  have n2: "\<not> overlong_token ?adv 50 (split_ws (replace_newline ?txt)) ''a very''"
    by (simp add: overlong_token_def fixed_surface_def main_font_def example_widget_def)
  from wrap_lines_fit [OF h1 h2 h3] h3 n1 n2 show ?thesis
    by simp
qed

section \<open>Properties of the font name beside a line\<close>

lemma draw_length: "draw sf f x y s = Inr ops \<Longrightarrow> ops = [DrawText f x y s]"
  by (auto simp: draw_def bind_e_eq_Inr)

lemma draw_name_at_result:
  "draw_name_at sf w x y s = Inr ops \<Longrightarrow>
     \<exists>a sa. ascent sf (main_font w) = Inr a \<and> ascent sf (small_font w) = Inr sa
       \<and> ops = [DrawText (small_font w) x (y - (a - sa)) s]"
  by (auto simp: draw_name_at_def bind_e_eq_Inr dest: draw_length)

lemma draw_font_name_at_most_one:
  assumes "draw_font_name sf w y line = Inr ops"
  shows "length ops \<le> 1"
proof -
  from assms obtain name_width line_advance
    where nw: "horizontalAdvance sf (small_font w) (font_name w) = Inr name_width"
      and la: "horizontalAdvance sf (main_font w) line = Inr line_advance"
    by (auto simp: draw_font_name_def bind_e_eq_Inr Let_def)
  let ?name_x = "rect_width w - name_width - 10"
  let ?end = "10 + line_advance"
  show ?thesis
  proof (cases "?name_x > ?end + 20")
    case True
    with assms nw la have "draw_name_at sf w ?name_x y (font_name w) = Inr ops"
      by (simp add: draw_font_name_def Let_def)
    from draw_name_at_result [OF this] show ?thesis
      by auto
  next
    case False
    then have "available_width_of ?name_x ?end = 0"
      by (simp add: available_width_of_def)
    with False assms nw la have "ops = []"
      by (simp add: draw_font_name_def Let_def)
    then show ?thesis
      by simp
  qed
qed

text \<open>
  The branch that shortens the font name is never taken: for every surface, widget and
  line the function is equal to one that has no such branch.
\<close>

lemma draw_font_name_never_shortens:
  "draw_font_name sf w y line =
     bind_e (horizontalAdvance sf (small_font w) (font_name w)) (\<lambda>name_width.
       bind_e (horizontalAdvance sf (main_font w) line) (\<lambda>line_advance.
         if rect_width w - name_width - 10 > 10 + line_advance + 20
         then draw_name_at sf w (rect_width w - name_width - 10) y (font_name w)
         else Inr []))"
  by (simp add: draw_font_name_def Let_def available_width_of_def cong: if_cong)

lemma available_width_collision:
  "name_x \<le> preview_text_end + 20 \<Longrightarrow> available_width_of name_x preview_text_end = 0"
  by (simp add: available_width_of_def)

lemma fixed_small:
  "horizontalAdvance fixed_surface (small_font example_widget) (font_name example_widget)
     = Inr 72"
  by (simp add: fixed_surface_def small_font_def example_widget_def font_name_def)

lemma fixed_main:
  "horizontalAdvance fixed_surface (main_font example_widget) s = Inr (7 * int (length s))"
  by (simp add: fixed_surface_def main_font_def example_widget_def)

text \<open>
  C10. Whenever the right-aligned position of the font name is at most 20 past the end of
  the line, the available width computed in that branch is 0, so it is never above 30, and
  nothing is drawn for the font name: neither shortened with an ellipsis nor in full.
\<close>

theorem collision_draws_no_name:
  assumes "horizontalAdvance sf (small_font w) (font_name w) = Inr name_width"
    and "horizontalAdvance sf (main_font w) line = Inr line_advance"
    and "name_x = rect_width w - name_width - 10"
    and "preview_text_end = 10 + line_advance"
    and "name_x \<le> preview_text_end + 20"
  shows "available_width_of name_x preview_text_end = 0
    \<and> \<not> available_width_of name_x preview_text_end > 30
    \<and> draw_font_name sf w y line = Inr []"
proof -
  have z: "available_width_of name_x preview_text_end = 0"
    using assms(5) by (rule available_width_collision)
  have "draw_font_name sf w y line = Inr []"
    using assms z by (simp add: draw_font_name_def Let_def)
  with z show ?thesis by simp
qed

theorem collision_draws_no_name_witness:
  "available_width_of 218 248 = 0
    \<and> draw_font_name fixed_surface example_widget 25 ''abcdefghijklmnopqrstuvwxyzabcdefgh'' = Inr []"
proof -
  have w: "rect_width example_widget = 300"
    by (simp add: example_widget_def)
  have m: "horizontalAdvance fixed_surface (main_font example_widget)
      ''abcdefghijklmnopqrstuvwxyzabcdefgh'' = Inr 238"
    by (simp add: fixed_main)
  from collision_draws_no_name
         [OF fixed_small m, where name_x = 218 and preview_text_end = 248 and y = 25] w
  show ?thesis by simp
qed

text \<open>
  With 71 units to fill, the loop that shortens the font name stops at a name that, with
  its ellipsis, is 66 wide.
\<close>

lemma shorten_name_fits_room:
  "shorten_name (horizontalAdvance fixed_surface (small_font example_widget)) 71
     (font_name example_widget) = Inr ''Arial - ''
   \<and> horizontalAdvance fixed_surface (small_font example_widget) (''Arial - '' @ ''...'')
       = Inr 66"
  by code_simp


text \<open>
  C4. Every line that is drawn gets its own attempt to place the font name: the drawing
  of a line that fits is followed by at most one font name placed against that line, and
  then by the drawing of the remaining lines from the next baseline.
\<close>

theorem draw_lines_name_per_line:
  assumes "draw_lines sf w y ((line, line_height) # rest) = Inr ops"
    and "ascent sf (main_font w) = Inr a"
    and "y - a + line_height \<le> rect_height w"
  shows "\<exists>name_ops rest_ops.
           draw_font_name sf w y line = Inr name_ops \<and> length name_ops \<le> 1
           \<and> draw_lines sf w (y + line_height) rest = Inr rest_ops
           \<and> ops = DrawText (main_font w) 10 y line # name_ops @ rest_ops"
proof -
  from assms obtain line_op name_ops rest_ops
    where d: "draw sf (main_font w) 10 y line = Inr line_op"
      and n: "draw_font_name sf w y line = Inr name_ops"
      and r: "draw_lines sf w (y + line_height) rest = Inr rest_ops"
      and o: "ops = line_op @ name_ops @ rest_ops"
    by (auto simp: bind_e_eq_Inr)
  from draw_length [OF d] draw_font_name_at_most_one [OF n] n r o show ?thesis
    by simp
qed

theorem draw_lines_name_per_line_witness:
  "\<exists>name_ops rest_ops.
     draw_font_name fixed_surface two_line_widget 25 ''ab'' = Inr name_ops
     \<and> length name_ops \<le> 1
     \<and> draw_lines fixed_surface two_line_widget 45 [(''cd'', 20)] = Inr rest_ops
     \<and> [DrawText (main_font two_line_widget) 10 25 ''ab'',
         DrawText (small_font two_line_widget) 218 22 ''Arial - Bold'',
         DrawText (main_font two_line_widget) 10 45 ''cd'',
         DrawText (small_font two_line_widget) 218 42 ''Arial - Bold'']
        = DrawText (main_font two_line_widget) 10 25 ''ab'' # name_ops @ rest_ops"
proof -
  have d: "draw_lines fixed_surface two_line_widget 25 [(''ab'', 20), (''cd'', 20)]
      = Inr [DrawText (main_font two_line_widget) 10 25 ''ab'',
         DrawText (small_font two_line_widget) 218 22 ''Arial - Bold'',
         DrawText (main_font two_line_widget) 10 45 ''cd'',
         DrawText (small_font two_line_widget) 218 42 ''Arial - Bold'']"
    by code_simp
  have a: "ascent fixed_surface (main_font two_line_widget) = Inr 15"
    by code_simp
  have h: "(25::int) - 15 + 20 \<le> rect_height two_line_widget"
    by code_simp
  from draw_lines_name_per_line [OF d a h] show ?thesis
    by simp
qed

text \<open>
  A text of two short lines: the pass draws the font name twice, beside the first line and
  beside the second.
\<close>

theorem name_beside_every_line_counterexample:
  "map_sum id (\<lambda>pm. map (\<lambda>d. (op_x d, op_y d, op_text d)) (pm_ops pm))
     (render fixed_surface two_line_widget)
   = Inr [(10, 25, ''ab''), (218, 22, ''Arial - Bold''),
          (10, 45, ''cd''), (218, 42, ''Arial - Bold'')]
   \<and> map_sum id (\<lambda>pm. length (filter (\<lambda>d. op_text d = font_name two_line_widget) (pm_ops pm)))
       (render fixed_surface two_line_widget) = Inr 2"
  by code_simp

section \<open>Properties of the cache\<close>

lemma example_render: "render fixed_surface example_widget = Inr example_pixmap"
  by code_simp

lemma render_newPixmap_raises:
  "newPixmap sf (rect_width w) (rect_height w) = Inl e \<Longrightarrow> render sf w = Inl e"
  by (simp add: render_def)

lemma render_advance_raises:
  "newPixmap sf (rect_width w) (rect_height w) = Inr ()
   \<Longrightarrow> horizontalAdvance sf (main_font w) (widget_text w) = Inl e \<Longrightarrow> render sf w = Inl e"
  by (simp add: render_def wrap_lines_def)

lemma failing_render:
  "render failing_surface example_widget = Inl (Exception ''drawText failed'')"
  by code_simp

text \<open>
  C9. When anything raises inside the render pass and the print of the message in the
  handler completes, \<^verbatim>\<open>_update_cache\<close> returns with no exception: the cache holds no
  pixmap, the exception is printed, and the paint event that ran the pass draws nothing and
  raises nothing.
\<close>

theorem update_cache_absorbs_exception:
  assumes "render sf w = Inl e" and "py_print sf e = Inr ()"
  shows "snd (update_cache sf w) = None
    \<and> cache_pixmap (fst (update_cache sf w)) = None
    \<and> printed (fst (update_cache sf w)) = printed w @ [e]
    \<and> (cache_pixmap w = None \<longrightarrow> paintEvent sf w = (fst (update_cache sf w), Inr None))"
  using assms by (simp add: update_cache_def paintEvent_def Let_def)

theorem update_cache_absorbs_exception_witness:
  "render failing_surface example_widget = Inl (Exception ''drawText failed'')
   \<and> snd (update_cache failing_surface example_widget) = None
   \<and> cache_pixmap (fst (update_cache failing_surface example_widget)) = None
   \<and> printed (fst (update_cache failing_surface example_widget))
       = [Exception ''drawText failed'']
   \<and> paintEvent failing_surface example_widget
       = (fst (update_cache failing_surface example_widget), Inr None)"
proof -
  have c: "cache_pixmap example_widget = None" "printed example_widget = []"
    by (simp_all add: example_widget_def)
  have p: "py_print failing_surface (Exception ''drawText failed'') = Inr ()"
    by (simp add: failing_surface_def fixed_surface_def)
  from update_cache_absorbs_exception [OF failing_render p] failing_render c
  show ?thesis by simp
qed

text \<open>
  Drawing the font name raises, and the standard output cannot encode the message: the
  exception of the print leaves \<^verbatim>\<open>_update_cache\<close> and the paint event, and nothing is
  printed.
\<close>

theorem print_raises_counterexample:
  "render unencodable_stdout_surface example_widget = Inl (Exception ''drawText failed'')
   \<and> snd (update_cache unencodable_stdout_surface example_widget)
       = Some (Exception ''UnicodeEncodeError'')
   \<and> snd (paintEvent unencodable_stdout_surface example_widget)
       = Inl (Exception ''UnicodeEncodeError'')
   \<and> printed (fst (paintEvent unencodable_stdout_surface example_widget)) = []"
  by code_simp

text \<open>
  C5. Of two paint events in a row on a widget whose cache is empty and whose render
  succeeds, only the first runs the render, and both draw the same pixmap. After
  \<^verbatim>\<open>set_font_info\<close> or \<^verbatim>\<open>set_font_properties\<close>, whatever the values passed, the next
  paint event runs the render. After a resize the next paint event does not: it draws the
  pixmap the cache holds.
\<close>

theorem paintEvent_cache:
  "(cache_pixmap w = None \<and> render sf w = Inr pm \<longrightarrow>
      (let r1 = paintEvent sf w; r2 = paintEvent sf (fst r1)
       in snd r1 = Inr (Some pm) \<and> snd r2 = Inr (Some pm)
          \<and> cache_pixmap (fst r2) = Some pm
          \<and> update_cache_calls (fst r2) = update_cache_calls w + 1))
   \<and> update_cache_calls (fst (paintEvent sf (set_font_info w fam style txt)))
        = update_cache_calls w + 1
   \<and> update_cache_calls (fst (paintEvent sf (set_font_properties w new_size col wt)))
        = update_cache_calls w + 1
   \<and> (cache_pixmap w = Some pm \<longrightarrow>
        paintEvent sf (resize w width height) = (resize w width height, Inr (Some pm))
        \<and> update_cache_calls (fst (paintEvent sf (resize w width height)))
            = update_cache_calls w)"
  by (auto simp: paintEvent_def update_cache_def Let_def set_font_info_def
      set_font_properties_def resize_def split: sum.splits)

theorem paintEvent_cache_witness:
  "(let r1 = paintEvent fixed_surface example_widget; r2 = paintEvent fixed_surface (fst r1)
    in snd r1 = Inr (Some example_pixmap) \<and> snd r2 = Inr (Some example_pixmap)
       \<and> update_cache_calls (fst r2) = 1)
   \<and> paintEvent fixed_surface
        (resize (example_widget\<lparr>cache_pixmap := Some example_pixmap\<rparr>) 100 60)
      = (resize (example_widget\<lparr>cache_pixmap := Some example_pixmap\<rparr>) 100 60,
         Inr (Some example_pixmap))"
proof -
  have c: "cache_pixmap example_widget = None" "update_cache_calls example_widget = 0"
    by (simp_all add: example_widget_def)
  have c2: "cache_pixmap (example_widget\<lparr>cache_pixmap := Some example_pixmap\<rparr>)
      = Some example_pixmap"
    by simp
  from paintEvent_cache [of example_widget fixed_surface example_pixmap] c example_render
  have one: "let r1 = paintEvent fixed_surface example_widget;
                 r2 = paintEvent fixed_surface (fst r1)
             in snd r1 = Inr (Some example_pixmap) \<and> snd r2 = Inr (Some example_pixmap)
                \<and> update_cache_calls (fst r2) = 1"
    by (simp add: Let_def)
  from paintEvent_cache
         [of "example_widget\<lparr>cache_pixmap := Some example_pixmap\<rparr>" fixed_surface
             example_pixmap _ _ _ _ _ _ 100 60] c2
  have two: "paintEvent fixed_surface
        (resize (example_widget\<lparr>cache_pixmap := Some example_pixmap\<rparr>) 100 60)
      = (resize (example_widget\<lparr>cache_pixmap := Some example_pixmap\<rparr>) 100 60,
         Inr (Some example_pixmap))"
    by simp
  from one two show ?thesis
    by simp
qed

text \<open>
  The widget is painted, resized from 300 to 100 wide, and painted again: the render ran
  once, and the second paint event draws the pixmap of width 300 again.
\<close>

theorem resize_does_not_render_counterexample:
  "(let r1 = paintEvent fixed_surface example_widget;
        w2 = resize (fst r1) 100 60;
        r2 = paintEvent fixed_surface w2
    in rect_width w2 \<noteq> rect_width (fst r1)
       \<and> update_cache_calls (fst r1) = 1
       \<and> update_cache_calls (fst r2) = 1
       \<and> snd r2 = snd r1
       \<and> map_sum id (map_option pm_width) (snd r2) = Inr (Some 300))"
  by code_simp

end
